theory Spec2Isabelle
  imports Main
begin

section \<open>JavaScript strings\<close>

text \<open>
  A string is a list of UTF-16 code units, each given by its number.  \<open>units\<close> writes
  a string of ASCII characters as such a list.
\<close>

type_synonym js_string = "nat list"

definition units :: "string \<Rightarrow> js_string" where
  "units s = map of_char s"

text \<open>
  \<open>toLowerCase\<close> and \<open>toUpperCase\<close> belong to the language, not to the repository: they
  are arguments of everything below, as a pair of functions from strings to strings of
  which nothing is assumed.  What is proved for every such pair holds for the conversions
  of JavaScript, which can change the length of a string (U+0130 has a lower-case form of
  two units, U+00DF an upper-case form of two) and can look at the neighbours of a letter.
\<close>

record case_conversion =
  toLowerCase :: "js_string \<Rightarrow> js_string"
  toUpperCase :: "js_string \<Rightarrow> js_string"

text \<open>
  The rows of the Unicode case tables that the examples below are evaluated at: Basic
  Latin, the Latin-1 Supplement, U+0130, and the combining dot U+0307, which has no
  case.  On a string of these units JavaScript converts unit by unit, as \<open>js_case\<close>
  does; no statement below evaluates \<open>js_case\<close> on another unit.
\<close>

definition lower_unit :: "nat \<Rightarrow> js_string" where
  "lower_unit u =
     (if (65 \<le> u \<and> u \<le> 90) \<or> (192 \<le> u \<and> u \<le> 222 \<and> u \<noteq> 215) then [u + 32]
      else if u = 304 then [105, 775]
      else [u])"

definition upper_unit :: "nat \<Rightarrow> js_string" where
  "upper_unit u =
     (if (97 \<le> u \<and> u \<le> 122) \<or> (224 \<le> u \<and> u \<le> 254 \<and> u \<noteq> 247) then [u - 32]
      else if u = 223 then [83, 83]
      else if u = 181 then [924]
      else if u = 255 then [376]
      else [u])"

definition js_case :: case_conversion where
  "js_case = \<lparr>toLowerCase = (\<lambda>s. concat (map lower_unit s)),
              toUpperCase = (\<lambda>s. concat (map upper_unit s))\<rparr>"

text \<open>
  \<open>s[i]\<close> is the one-unit string at index \<open>i\<close>, or \<open>undefined\<close> (here \<open>None\<close>)
  when \<open>i\<close> is not below \<open>s.length\<close>.
\<close>

definition js_index :: "js_string \<Rightarrow> nat \<Rightarrow> js_string option" where
  "js_index s i = (if i < length s then Some [s ! i] else None)"

text \<open>\<open>x || ''\<close> on a string or \<open>undefined\<close>.\<close>

definition or_empty :: "js_string option \<Rightarrow> js_string" where
  "or_empty x = (case x of None \<Rightarrow> [] | Some s \<Rightarrow> s)"

section \<open>The guess scorer of the spelling flash-card game\<close>

text \<open>
  \<open>renderGuessRow\<close> of the first \<open>SpellingFlashCardGame\<close> keeps a local array
  \<open>matchStatus\<close>, filled with \<open>'none'\<close> and then overwritten, and a local
  \<open>Map\<close> from letters to the number of target letters still available.
\<close>

datatype match_status = Unset | Correct | Wrong_position | Incorrect

abbreviation present_elsewhere :: match_status where
  "present_elsewhere \<equiv> Wrong_position"

abbreviation absent :: match_status where
  "absent \<equiv> Incorrect"

type_synonym letter_counts = "js_string \<rightharpoonup> nat"

text \<open>
  Body of the first loop, at index \<open>i\<close> below \<open>targetWord.length\<close>:
  \<open>if (guess[i]?.toLowerCase() !== targetWord[i])
     letterCounts.set(letter, (letterCounts.get(letter) || 0) + 1)\<close>.
\<close>

definition count_available ::
    "case_conversion \<Rightarrow> js_string \<Rightarrow> js_string \<Rightarrow> nat \<Rightarrow> letter_counts \<Rightarrow> letter_counts" where
  "count_available cv guess targetWord i letterCounts =
     (if map_option (toLowerCase cv) (js_index guess i) \<noteq> js_index targetWord i
      then (let letter = [targetWord ! i] in
            letterCounts(letter \<mapsto> (case letterCounts letter of None \<Rightarrow> 0 | Some n \<Rightarrow> n) + 1))
      else letterCounts)"

text \<open>
  Body of the second loop:
  \<open>guessedLetter = guess[i]?.toLowerCase() || ''\<close>, \<open>targetLetter = targetWord[i]\<close>
  (\<open>undefined\<close> beyond the lower-cased target), and the cell is \<open>'correct'\<close> when they
  are strictly equal.
\<close>

definition mark_exact ::
    "case_conversion \<Rightarrow> js_string \<Rightarrow> js_string \<Rightarrow> nat \<Rightarrow> match_status list \<Rightarrow> match_status list" where
  "mark_exact cv guess targetWord i matchStatus =
     (let guessedLetter = or_empty (map_option (toLowerCase cv) (js_index guess i));
          targetLetter = js_index targetWord i
      in if Some guessedLetter = targetLetter then matchStatus[i := Correct] else matchStatus)"

text \<open>
  Body of the third loop.  \<open>letterCounts.get(guessedLetter) > 0\<close> is false for a letter
  that is not a key; the decrement runs only behind that test, so the counter never
  goes below zero and a natural number holds it.
\<close>

definition mark_wrong_position ::
    "case_conversion \<Rightarrow> js_string \<Rightarrow> nat \<Rightarrow> match_status list \<times> letter_counts \<Rightarrow>
     match_status list \<times> letter_counts" where
  "mark_wrong_position cv guess i st =
     (let matchStatus = fst st; letterCounts = snd st in
      if matchStatus ! i = Correct then st
      else
        let guessedLetter = or_empty (map_option (toLowerCase cv) (js_index guess i)) in
        if guessedLetter \<noteq> [] \<and> (case letterCounts guessedLetter of None \<Rightarrow> False | Some n \<Rightarrow> 0 < n)
        then (matchStatus[i := Wrong_position],
              letterCounts(guessedLetter \<mapsto>
                (case letterCounts guessedLetter of None \<Rightarrow> 0 | Some n \<Rightarrow> n) - 1))
        else (matchStatus[i := Incorrect], letterCounts))"

definition letterCounts_init :: "case_conversion \<Rightarrow> js_string \<Rightarrow> js_string \<Rightarrow> letter_counts" where
  "letterCounts_init cv guess targetWord =
     fold (count_available cv guess targetWord) [0..<length targetWord] Map.empty"

definition matchStatus_exact ::
    "case_conversion \<Rightarrow> js_string \<Rightarrow> js_string \<Rightarrow> nat \<Rightarrow> match_status list" where
  "matchStatus_exact cv guess targetWord totalCells =
     fold (mark_exact cv guess targetWord) [0..<totalCells] (replicate totalCells Unset)"

text \<open>
  The array \<open>matchStatus\<close> as it stands when the three loops are over.  \<open>totalCells\<close>
  is taken from the word as it is, the first loop runs over the lower-cased word.
\<close>

definition matchStatus :: "case_conversion \<Rightarrow> js_string \<Rightarrow> js_string \<Rightarrow> match_status list" where
  "matchStatus cv word guess =
     (let totalCells = max (length word) (length guess);
          targetWord = toLowerCase cv word
      in fst (fold (mark_wrong_position cv guess) [0..<totalCells]
               (matchStatus_exact cv guess targetWord totalCells,
                letterCounts_init cv guess targetWord)))"

text \<open>
  One rendered cell: the \<open>matchStatus\<close> entry its \<open>switch\<close> reads, the class it gets
  and the text it shows.
\<close>

record cell =
  cell_status :: match_status
  cell_class :: string
  cell_text :: js_string

definition cellClass :: "match_status \<Rightarrow> js_string \<Rightarrow> string" where
  "cellClass st guessedLetter =
     (case st of
        Correct \<Rightarrow> ''bg-green-500 text-white''
      | Wrong_position \<Rightarrow> ''bg-yellow-500 text-white''
      | Incorrect \<Rightarrow>
          (if guessedLetter \<noteq> [] then ''bg-gray-400 text-white'' else ''bg-red-500 text-white'')
      | Unset \<Rightarrow> [])"

text \<open>
  \<open>renderGuessRow\<close>, with \<open>currentPair?.word\<close> as an argument (\<open>None\<close> when
  \<open>currentPair\<close> is \<open>null\<close>).  The guard \<open>if (!currentPair?.word) return null\<close> also
  catches the empty word; \<open>null\<close> is \<open>None\<close>.
\<close>

definition renderGuessRow :: "case_conversion \<Rightarrow> js_string option \<Rightarrow> js_string \<Rightarrow> cell list option" where
  "renderGuessRow cv currentPair_word guess =
     (case currentPair_word of
        None \<Rightarrow> None
      | Some word \<Rightarrow>
          if word = [] then None
          else
            let totalCells = max (length word) (length guess);
                ms = matchStatus cv word guess
            in Some (map (\<lambda>index.
                       let guessedLetter = or_empty (js_index guess index)
                       in \<lparr>cell_status = ms ! index,
                           cell_class = cellClass (ms ! index) guessedLetter,
                           cell_text = toUpperCase cv guessedLetter\<rparr>)
                     [0..<totalCells]))"

text \<open>The classification a guess gets against a target: the statuses of the rendered row.\<close>

definition classify :: "case_conversion \<Rightarrow> js_string \<Rightarrow> js_string \<Rightarrow> match_status list option" where
  "classify cv target guess =
     map_option (map cell_status) (renderGuessRow cv (Some target) guess)"

section \<open>The position-by-position variants\<close>

text \<open>
  \<open>renderGuessRow\<close> of \<open>default.tsx\<close>: no table of letters, each cell gets its class
  from the guessed and the expected letter at its own index.  \<open>expectedLetter\<close> is
  \<open>null\<close> (here \<open>None\<close>) beyond the word, \<open>guessedLetter\<close> is \<open>guess[index] || ""\<close>.
\<close>

record plain_cell =
  plain_class :: string
  plain_text :: js_string

definition renderGuessRow_default :: "case_conversion \<Rightarrow> js_string \<Rightarrow> js_string \<Rightarrow> plain_cell list" where
  "renderGuessRow_default cv currentWord guess =
     (let totalCells = max (length currentWord) (length guess)
      in map (\<lambda>index.
           let expectedLetter = (if index < length currentWord then js_index currentWord index else None);
               guessedLetter = or_empty (js_index guess index);
               cellClass =
                 (case expectedLetter of
                    Some e \<Rightarrow>
                      if guessedLetter = [] then ''bg-red-500 text-white''
                      else if toLowerCase cv guessedLetter = toLowerCase cv e then ''bg-green-500 text-white''
                      else ''bg-gray-300 text-black''
                  | None \<Rightarrow> ''bg-gray-300 text-black'')
           in \<lparr>plain_class = cellClass, plain_text = toUpperCase cv guessedLetter\<rparr>)
         [0..<totalCells])"

text \<open>
  The second \<open>SpellingFlashCardGame\<close> of the unnamed source file has the same function,
  again over \<open>currentWord\<close>.
\<close>

definition renderGuessRow_currentWord :: "case_conversion \<Rightarrow> js_string \<Rightarrow> js_string \<Rightarrow> plain_cell list" where
  "renderGuessRow_currentWord cv currentWord guess =
     (let totalCells = max (length currentWord) (length guess)
      in map (\<lambda>index.
           let expectedLetter = (if index < length currentWord then js_index currentWord index else None);
               guessedLetter = or_empty (js_index guess index);
               cellClass =
                 (case expectedLetter of
                    Some e \<Rightarrow>
                      if guessedLetter = [] then ''bg-red-500 text-white''
                      else if toLowerCase cv guessedLetter = toLowerCase cv e then ''bg-green-500 text-white''
                      else ''bg-gray-300 text-black''
                  | None \<Rightarrow> ''bg-gray-300 text-black'')
           in \<lparr>plain_class = cellClass, plain_text = toUpperCase cv guessedLetter\<rparr>)
         [0..<totalCells])"

text \<open>
  The third one reads \<open>currentPair?.word\<close>, which is \<open>undefined\<close> (here \<open>None\<close>) while
  \<open>currentPair\<close> is \<open>null\<close>; \<open>currentPair?.word.length || 0\<close> is then \<open>0\<close>, so that
  \<open>expectedLetter\<close> is \<open>null\<close> at every index.
\<close>

definition renderGuessRow_currentPair ::
    "case_conversion \<Rightarrow> js_string option \<Rightarrow> js_string \<Rightarrow> plain_cell list" where
  "renderGuessRow_currentPair cv currentPair_word guess =
     (let word_length = (case currentPair_word of None \<Rightarrow> 0 | Some word \<Rightarrow> length word);
          totalCells = max word_length (length guess)
      in map (\<lambda>index.
           let expectedLetter =
                 (if index < word_length
                  then (case currentPair_word of None \<Rightarrow> None | Some word \<Rightarrow> js_index word index)
                  else None);
               guessedLetter = or_empty (js_index guess index);
               cellClass =
                 (case expectedLetter of
                    Some e \<Rightarrow>
                      if guessedLetter = [] then ''bg-red-500 text-white''
                      else if toLowerCase cv guessedLetter = toLowerCase cv e then ''bg-green-500 text-white''
                      else ''bg-gray-300 text-black''
                  | None \<Rightarrow> ''bg-gray-300 text-black'')
           in \<lparr>plain_class = cellClass, plain_text = toUpperCase cv guessedLetter\<rparr>)
         [0..<totalCells])"

section \<open>The challenge tracker\<close>

text \<open>
  A JavaScript number is an IEEE double.  \<open>current_day\<close> is modelled by the whole number
  it holds (a double that is not a whole number, infinite or \<open>NaN\<close> is not a value of
  the model).  Adding two whole numbers gives the double nearest to their sum, ties to
  the even one: the sum itself when it is below \<open>2^53\<close> in size, and otherwise a multiple
  of a power of two.  Sums beyond the largest finite double are not modelled.
\<close>

function bit_length :: "int \<Rightarrow> nat" where
  "bit_length n = (if n \<le> 0 then 0 else Suc (bit_length (n div 2)))"
  by pat_completeness auto
termination
  by (relation "measure nat") auto

declare bit_length.simps [simp del]

definition nearest_double :: "int \<Rightarrow> int" where
  "nearest_double x =
     (let a = \<bar>x\<bar> in
      if a < 2 ^ 53 then x
      else
        let e = bit_length a - 53;
            q = a div 2 ^ e;
            r = a mod 2 ^ e;
            q' = (if 2 ^ e < 2 * r \<or> (2 * r = 2 ^ e \<and> odd q) then q + 1 else q)
        in sgn x * (q' * 2 ^ e))"

definition js_add :: "int \<Rightarrow> int \<Rightarrow> int" where
  "js_add x y = nearest_double (x + y)"

text \<open>
  \<open>UserChallengeProgress\<close>.  A \<open>Date\<close> is a number of milliseconds.
  \<open>task_completions\<close> maps a day to the completions of that day, by task template id.
\<close>

type_synonym date = nat

record task_completion =
  completed :: bool
  completed_at :: "date option"
  task_notes :: "string option"

record UserChallengeProgress =
  progress_id :: string
  user_id :: string
  challenge_id :: string
  level_id :: string
  start_date :: date
  current_day :: int
  task_completions :: "int \<rightharpoonup> (string \<rightharpoonup> task_completion)"

text \<open>
  \<open>startChallenge\<close> draws its id from \<open>Math.random()\<close> and its start date from
  \<open>new Date()\<close>; both are arguments here (\<open>fresh_id\<close>, \<open>now\<close>).
\<close>

definition startChallenge :: "string \<Rightarrow> date \<Rightarrow> string \<Rightarrow> string \<Rightarrow> string \<Rightarrow> UserChallengeProgress" where
  "startChallenge fresh_id now userId challengeId levelId =
     \<lparr>progress_id = fresh_id, user_id = userId, challenge_id = challengeId, level_id = levelId,
      start_date = now, current_day = 1, task_completions = Map.empty\<rparr>"

text \<open>
  The functions below test \<open>!progress\<close> first, so their argument may be \<open>null\<close>
  (\<open>None\<close>) whatever its declared type says.
\<close>

definition completeTask ::
    "string \<Rightarrow> date \<Rightarrow> UserChallengeProgress option \<Rightarrow> string \<Rightarrow> string option \<Rightarrow> UserChallengeProgress" where
  "completeTask fresh_id now progress taskTemplateId notes_arg =
     (case progress of
        None \<Rightarrow> startChallenge fresh_id now [] [] []
      | Some p \<Rightarrow>
          p\<lparr>task_completions :=
              (task_completions p)(current_day p \<mapsto>
                (case task_completions p (current_day p) of None \<Rightarrow> Map.empty | Some d \<Rightarrow> d)
                  (taskTemplateId \<mapsto>
                     \<lparr>completed = True, completed_at = Some now, task_notes = notes_arg\<rparr>))\<rparr>)"

definition uncompleteTask ::
    "string \<Rightarrow> date \<Rightarrow> UserChallengeProgress option \<Rightarrow> string \<Rightarrow> UserChallengeProgress" where
  "uncompleteTask fresh_id now progress taskTemplateId =
     (case progress of
        None \<Rightarrow> startChallenge fresh_id now [] [] []
      | Some p \<Rightarrow>
          let dayCompletions =
                (case task_completions p (current_day p) of None \<Rightarrow> Map.empty | Some d \<Rightarrow> d);
              remainingTasks = dayCompletions(taskTemplateId := None)
          in p\<lparr>task_completions := (task_completions p)(current_day p \<mapsto> remainingTasks)\<rparr>)"

definition advanceDay :: "UserChallengeProgress option \<Rightarrow> UserChallengeProgress option" where
  "advanceDay progress =
     (case progress of
        None \<Rightarrow> None
      | Some p \<Rightarrow>
          if 28 \<le> current_day p then Some p
          else Some (p\<lparr>current_day := js_add (current_day p) 1\<rparr>))"

text \<open>A caller's sequence of calls, each one fed the progress the one before returned.\<close>

datatype tracker_call =
    CompleteTask string date string "string option"
  | UncompleteTask string date string
  | AdvanceDay

fun tracker_step :: "tracker_call \<Rightarrow> UserChallengeProgress option \<Rightarrow> UserChallengeProgress option" where
  "tracker_step (CompleteTask fresh_id now taskTemplateId notes_arg) progress =
     Some (completeTask fresh_id now progress taskTemplateId notes_arg)"
| "tracker_step (UncompleteTask fresh_id now taskTemplateId) progress =
     Some (uncompleteTask fresh_id now progress taskTemplateId)"
| "tracker_step AdvanceDay progress = advanceDay progress"

definition tracker_run :: "tracker_call list \<Rightarrow> UserChallengeProgress option \<Rightarrow> UserChallengeProgress option" where
  "tracker_run calls progress = fold tracker_step calls progress"

section \<open>The reference scorer of the specification\<close>

text \<open>
  The two-pass algorithm as the specification words it: one histogram of the target's
  letters, built once; pass 1 marks every exact positional match \<open>correct\<close> and takes
  one off that letter's counter; pass 2 goes over the remaining positions from left to
  right and marks a position \<open>present-elsewhere\<close>, taking one off the counter, exactly
  when the guess has a letter there whose counter is positive, and \<open>absent\<close> otherwise.
  Letters are compared without regard to case: two letters are the same when their
  lower-case forms are, and a counter belongs to the lower-case form of a letter.
\<close>

definition spec_histogram :: "case_conversion \<Rightarrow> js_string \<Rightarrow> js_string \<Rightarrow> int" where
  "spec_histogram cv target s = int (count_list (map (\<lambda>u. toLowerCase cv [u]) target) s)"

definition spec_pass1 ::
    "case_conversion \<Rightarrow> js_string \<Rightarrow> js_string \<Rightarrow> nat \<Rightarrow>
     match_status list \<times> (js_string \<Rightarrow> int) \<Rightarrow> match_status list \<times> (js_string \<Rightarrow> int)" where
  "spec_pass1 cv target guess i st =
     (if i < length target \<and> i < length guess \<and>
         toLowerCase cv [guess ! i] = toLowerCase cv [target ! i]
      then ((fst st)[i := Correct],
            (snd st)(toLowerCase cv [target ! i] := snd st (toLowerCase cv [target ! i]) - 1))
      else st)"

definition spec_pass2 ::
    "case_conversion \<Rightarrow> js_string \<Rightarrow> nat \<Rightarrow>
     match_status list \<times> (js_string \<Rightarrow> int) \<Rightarrow> match_status list \<times> (js_string \<Rightarrow> int)" where
  "spec_pass2 cv guess i st =
     (if fst st ! i = Correct then st
      else if i < length guess \<and> 0 < snd st (toLowerCase cv [guess ! i])
      then ((fst st)[i := present_elsewhere],
            (snd st)(toLowerCase cv [guess ! i] := snd st (toLowerCase cv [guess ! i]) - 1))
      else ((fst st)[i := absent], snd st))"

definition spec_classify :: "case_conversion \<Rightarrow> js_string \<Rightarrow> js_string \<Rightarrow> match_status list" where
  "spec_classify cv target guess =
     (let n = max (length target) (length guess);
          st1 = fold (spec_pass1 cv target guess) [0..<n] (replicate n Unset, spec_histogram cv target)
      in fst (fold (spec_pass2 cv guess) [0..<n] st1))"

section \<open>Vocabulary of the statements and proofs\<close>

text \<open>The lower-cased letter the guess has at an index; the empty string when it has none.\<close>

definition guessedLetter :: "case_conversion \<Rightarrow> js_string \<Rightarrow> nat \<Rightarrow> js_string" where
  "guessedLetter cv guess i = (if i < length guess then toLowerCase cv [guess ! i] else [])"

text \<open>An exact match of the guess with the lower-cased target at an index.\<close>

definition exact_match :: "case_conversion \<Rightarrow> js_string \<Rightarrow> js_string \<Rightarrow> nat \<Rightarrow> bool" where
  "exact_match cv guess targetWord i \<longleftrightarrow>
     i < length guess \<and> i < length targetWord \<and> toLowerCase cv [guess ! i] = [targetWord ! i]"

text \<open>What \<open>letterCounts.get(s) || 0\<close> reads.\<close>

definition counter :: "letter_counts \<Rightarrow> js_string \<Rightarrow> nat" where
  "counter m s = (case m s of None \<Rightarrow> 0 | Some n \<Rightarrow> n)"

text \<open>
  The number of positions of a classification that are \<open>correct\<close> or
  \<open>present-elsewhere\<close> and whose guess letter is the letter \<open>c\<close>, whatever its case.
\<close>

definition credited :: "case_conversion \<Rightarrow> match_status list \<Rightarrow> js_string \<Rightarrow> nat \<Rightarrow> nat" where
  "credited cv cs guess c =
     length (filter (\<lambda>i. (cs ! i = Correct \<or> cs ! i = present_elsewhere) \<and> i < length guess \<and>
                          toLowerCase cv [guess ! i] = toLowerCase cv [c])
               [0..<length cs])"

text \<open>
  The number of occurrences of the letter \<open>s\<close> in the lower-cased target that the guess
  does not match exactly at their own index: what the first loop leaves in the counter
  of \<open>s\<close>.
\<close>

definition available :: "case_conversion \<Rightarrow> js_string \<Rightarrow> js_string \<Rightarrow> js_string \<Rightarrow> nat" where
  "available cv target guess s =
     length (filter (\<lambda>j. \<not> exact_match cv guess (toLowerCase cv target) j \<and>
                          [toLowerCase cv target ! j] = s)
               [0..<length (toLowerCase cv target)])"

text \<open>
  The number of positions to the left of \<open>i\<close> that are \<open>present-elsewhere\<close> and have
  the letter the guess has at \<open>i\<close>.
\<close>

definition taken_before :: "case_conversion \<Rightarrow> match_status list \<Rightarrow> js_string \<Rightarrow> nat \<Rightarrow> nat" where
  "taken_before cv cs guess i =
     length (filter (\<lambda>j. cs ! j = present_elsewhere \<and>
                          guessedLetter cv guess j = guessedLetter cv guess i)
               [0..<i])"

text \<open>The unit a string has at an index, if it has one.\<close>

definition char_at :: "js_string \<Rightarrow> nat \<Rightarrow> nat option" where
  "char_at s i = (if i < length s then Some (s ! i) else None)"

text \<open>
  The class a cell gets from the expected and the guessed letter of its own position
  alone: green for the same letter whatever its case, red where the guess has no letter,
  gray otherwise.
\<close>

definition position_class :: "case_conversion \<Rightarrow> nat option \<Rightarrow> nat option \<Rightarrow> string" where
  "position_class cv expected guessed =
     (case expected of
        None \<Rightarrow> ''bg-gray-300 text-black''
      | Some e \<Rightarrow>
          (case guessed of
             None \<Rightarrow> ''bg-red-500 text-white''
           | Some g \<Rightarrow>
               if toLowerCase cv [g] = toLowerCase cv [e] then ''bg-green-500 text-white''
               else ''bg-gray-300 text-black''))"

text \<open>A string of ASCII characters.\<close>

definition ascii :: "js_string \<Rightarrow> bool" where
  "ascii s = list_all (\<lambda>u. u < 128) s"

text \<open>
  The lower-cased string has, at each index of the string, the lower-case form of the
  letter at that index.
\<close>

definition matches_itself :: "case_conversion \<Rightarrow> js_string \<Rightarrow> bool" where
  "matches_itself cv s =
     list_all (\<lambda>i. js_index (toLowerCase cv s) i = Some (toLowerCase cv [s ! i])) [0..<length s]"

text \<open>The same, and the lower-cased string is no longer than the string.\<close>

definition letterwise :: "case_conversion \<Rightarrow> js_string \<Rightarrow> bool" where
  "letterwise cv s \<longleftrightarrow> length (toLowerCase cv s) = length s \<and> matches_itself cv s"

text \<open>
  A replacement \<open>f\<close> of a target keeps its length and its lower-cased form; a replacement
  of a guess keeps its length and the lower-case form of each of its letters.
\<close>

definition keeps_word :: "case_conversion \<Rightarrow> (js_string \<Rightarrow> js_string) \<Rightarrow> js_string \<Rightarrow> bool" where
  "keeps_word cv f s \<longleftrightarrow> length (f s) = length s \<and> toLowerCase cv (f s) = toLowerCase cv s"

definition keeps_letters :: "case_conversion \<Rightarrow> (js_string \<Rightarrow> js_string) \<Rightarrow> js_string \<Rightarrow> bool" where
  "keeps_letters cv f s \<longleftrightarrow>
     length (f s) = length s \<and>
     list_all (\<lambda>i. toLowerCase cv [f s ! i] = toLowerCase cv [s ! i]) [0..<length s]"

text \<open>
  What holds of the third loop after its first \<open>k\<close> rounds, started on the array
  \<open>ms0\<close> and the table \<open>lc0\<close>: the array keeps its length; from \<open>k\<close> on it is
  untouched; below \<open>k\<close> the exact matches are kept and every other entry is decided,
  \<open>'wrong-position'\<close> exactly when the guess has a letter there of which the table had
  more than the positions to the left have taken; and each \<open>'wrong-position'\<close> entry has
  taken one from the counter of its letter.
\<close>

definition pass2_inv ::
    "case_conversion \<Rightarrow> js_string \<Rightarrow> match_status list \<Rightarrow> letter_counts \<Rightarrow> nat \<Rightarrow>
     match_status list \<times> letter_counts \<Rightarrow> bool" where
  "pass2_inv cv guess ms0 lc0 k st \<longleftrightarrow>
     length (fst st) = length ms0 \<and>
     (\<forall>i. k \<le> i \<longrightarrow> fst st ! i = ms0 ! i) \<and>
     (\<forall>i<k. if ms0 ! i = Correct then fst st ! i = Correct
            else fst st ! i = Incorrect \<or> fst st ! i = Wrong_position) \<and>
     (\<forall>i<k. ms0 ! i \<noteq> Correct \<longrightarrow>
        (fst st ! i = Wrong_position \<longleftrightarrow>
           guessedLetter cv guess i \<noteq> [] \<and>
           length (filter (\<lambda>j. fst st ! j = Wrong_position \<and>
                              guessedLetter cv guess j = guessedLetter cv guess i) [0..<i])
             < counter lc0 (guessedLetter cv guess i))) \<and>
     (\<forall>s. length (filter (\<lambda>i. fst st ! i = Wrong_position \<and> guessedLetter cv guess i = s) [0..<k])
            + counter (snd st) s = counter lc0 s)"

section \<open>The three loops, step by step\<close>

lemma guess_lower_index:
  "map_option (toLowerCase cv) (js_index guess i) =
     (if i < length guess then Some (toLowerCase cv [guess ! i]) else None)"
  by (simp add: js_index_def)

lemma or_empty_guess:
  "or_empty (map_option (toLowerCase cv) (js_index guess i)) = guessedLetter cv guess i"
  by (simp add: guess_lower_index guessedLetter_def or_empty_def)

lemma count_available_eq:
  "i < length t \<Longrightarrow> count_available cv guess t i m =
     (if exact_match cv guess t i then m else m([t ! i] \<mapsto> counter m [t ! i] + 1))"
  by (simp add: count_available_def js_index_def exact_match_def counter_def Let_def)

lemma mark_exact_eq:
  "mark_exact cv guess t i ms = (if exact_match cv guess t i then ms[i := Correct] else ms)"
  by (simp add: mark_exact_def js_index_def or_empty_def exact_match_def Let_def)

lemma mark_wrong_position_eq:
  "mark_wrong_position cv guess i (ms, m) =
     (if ms ! i = Correct then (ms, m)
      else if guessedLetter cv guess i \<noteq> [] \<and> 0 < counter m (guessedLetter cv guess i)
      then (ms[i := Wrong_position],
            m(guessedLetter cv guess i \<mapsto> counter m (guessedLetter cv guess i) - 1))
      else (ms[i := Incorrect], m))"
  by (auto simp: mark_wrong_position_def or_empty_guess counter_def Let_def split: option.splits)

lemma counter_letterCounts_prefix:
  "k \<le> length t \<Longrightarrow>
   counter (fold (count_available cv guess t) [0..<k] Map.empty) s =
     length (filter (\<lambda>i. \<not> exact_match cv guess t i \<and> [t ! i] = s) [0..<k])"
proof (induction k)
  case 0
  show ?case by (simp add: counter_def)
next
  case (Suc k)
  then have k: "k < length t"
    and IH: "counter (fold (count_available cv guess t) [0..<k] Map.empty) s =
     length (filter (\<lambda>i. \<not> exact_match cv guess t i \<and> [t ! i] = s) [0..<k])" by simp_all
  show ?case
    using IH by (auto simp: count_available_eq [OF k] counter_def)
qed

lemma matchStatus_exact_prefix:
  "fold (mark_exact cv guess t) [0..<k] ms =
     map (\<lambda>i. if i < k \<and> exact_match cv guess t i then Correct else ms ! i) [0..<length ms]"
proof (induction k)
  case 0
  show ?case by (simp add: map_nth)
next
  case (Suc k)
  have "fold (mark_exact cv guess t) [0..<Suc k] ms =
          mark_exact cv guess t k (fold (mark_exact cv guess t) [0..<k] ms)"
    by simp
  also have "\<dots> = mark_exact cv guess t k
      (map (\<lambda>i. if i < k \<and> exact_match cv guess t i then Correct else ms ! i) [0..<length ms])"
    by (simp only: Suc)
  also have "\<dots> = map (\<lambda>i. if i < Suc k \<and> exact_match cv guess t i then Correct else ms ! i)
                     [0..<length ms]"
  proof (rule nth_equalityI)
    show "length (mark_exact cv guess t k
      (map (\<lambda>i. if i < k \<and> exact_match cv guess t i then Correct else ms ! i) [0..<length ms])) =
      length (map (\<lambda>i. if i < Suc k \<and> exact_match cv guess t i then Correct else ms ! i)
                [0..<length ms])"
      by (simp add: mark_exact_eq)
  next
    fix i
    assume "i < length (mark_exact cv guess t k
      (map (\<lambda>i. if i < k \<and> exact_match cv guess t i then Correct else ms ! i) [0..<length ms]))"
    then have i: "i < length ms" by (simp add: mark_exact_eq split: if_splits)
    show "mark_exact cv guess t k
      (map (\<lambda>i. if i < k \<and> exact_match cv guess t i then Correct else ms ! i) [0..<length ms]) ! i =
      map (\<lambda>i. if i < Suc k \<and> exact_match cv guess t i then Correct else ms ! i) [0..<length ms] ! i"
      using i by (cases "i = k") (auto simp: mark_exact_eq less_Suc_eq)
  qed
  finally show ?case .
qed

section \<open>The third loop\<close>

lemma pass2_inv_0: "pass2_inv cv guess ms0 lc0 0 (ms0, lc0)"
  by (simp add: pass2_inv_def)

lemma filter_upt_update:
  "i \<le> k \<Longrightarrow>
   filter (\<lambda>j. (ms[k := v]) ! j = w \<and> P j) [0..<i] = filter (\<lambda>j. ms ! j = w \<and> P j) [0..<i]"
  by (rule filter_cong) auto

lemma counter_upd: "counter (m(g \<mapsto> n)) s = (if s = g then n else counter m s)"
  by (simp add: counter_def)

lemma pass2_inv_step:
  assumes k: "k < length ms0" and inv: "pass2_inv cv guess ms0 lc0 k st"
  shows "pass2_inv cv guess ms0 lc0 (Suc k) (mark_wrong_position cv guess k st)"
proof -
  let ?gl = "guessedLetter cv guess"
  obtain ms m where st: "st = (ms, m)" by (cases st)
  from inv have "length ms = length ms0 \<and>
     (\<forall>i. k \<le> i \<longrightarrow> ms ! i = ms0 ! i) \<and>
     (\<forall>i<k. if ms0 ! i = Correct then ms ! i = Correct
            else ms ! i = Incorrect \<or> ms ! i = Wrong_position) \<and>
     (\<forall>i<k. ms0 ! i \<noteq> Correct \<longrightarrow>
        (ms ! i = Wrong_position \<longleftrightarrow>
           ?gl i \<noteq> [] \<and>
           length (filter (\<lambda>j. ms ! j = Wrong_position \<and> ?gl j = ?gl i) [0..<i])
             < counter lc0 (?gl i))) \<and>
     (\<forall>s. length (filter (\<lambda>i. ms ! i = Wrong_position \<and> ?gl i = s) [0..<k])
            + counter m s = counter lc0 s)"
    unfolding pass2_inv_def st fst_conv snd_conv .
  then have len: "length ms = length ms0"
    and above: "\<And>i. k \<le> i \<Longrightarrow> ms ! i = ms0 ! i"
    and below: "\<And>i. i < k \<Longrightarrow> if ms0 ! i = Correct then ms ! i = Correct
            else ms ! i = Incorrect \<or> ms ! i = Wrong_position"
    and dec: "\<And>i. i < k \<Longrightarrow> ms0 ! i \<noteq> Correct \<Longrightarrow>
        (ms ! i = Wrong_position \<longleftrightarrow>
           ?gl i \<noteq> [] \<and>
           length (filter (\<lambda>j. ms ! j = Wrong_position \<and> ?gl j = ?gl i) [0..<i])
             < counter lc0 (?gl i))"
    and cons: "\<And>s. length (filter (\<lambda>i. ms ! i = Wrong_position \<and> ?gl i = s) [0..<k])
            + counter m s = counter lc0 s"
    by blast+
  have kms: "k < length ms" using k len by simp
  have pos: "0 < counter m (?gl k) \<longleftrightarrow>
      length (filter (\<lambda>j. ms ! j = Wrong_position \<and> ?gl j = ?gl k) [0..<k]) < counter lc0 (?gl k)"
    using cons [of "?gl k"] by linarith
  define v where "v = (if ms ! k = Correct then Correct
      else if ?gl k \<noteq> [] \<and> 0 < counter m (?gl k) then Wrong_position else Incorrect)"
  define m' where "m' = (if ms ! k \<noteq> Correct \<and> ?gl k \<noteq> [] \<and> 0 < counter m (?gl k)
      then m(?gl k \<mapsto> counter m (?gl k) - 1) else m)"
  have same: "ms[k := Correct] = ms" if "ms ! k = Correct"
    using list_update_id [of ms k] that by simp
  have eq: "mark_wrong_position cv guess k st = (ms[k := v], m')"
    by (simp add: st mark_wrong_position_eq v_def m'_def same)
  have nth_new: "ms[k := x] ! i = (if i = k then x else ms ! i)" for i x
    using kms by (simp add: nth_list_update)
  have filt: "filter (\<lambda>j. ms[k := v] ! j = Wrong_position \<and> P j) [0..<i] =
              filter (\<lambda>j. ms ! j = Wrong_position \<and> P j) [0..<i]" if "i \<le> k" for i P
    using that by (rule filter_upt_update)
  have k0: "ms0 ! k = ms ! k" using above [of k] by simp
  have a: "\<forall>i. Suc k \<le> i \<longrightarrow> ms[k := v] ! i = ms0 ! i"
    using above by (simp add: nth_new)
  have b: "\<forall>i<Suc k. if ms0 ! i = Correct then ms[k := v] ! i = Correct
            else ms[k := v] ! i = Incorrect \<or> ms[k := v] ! i = Wrong_position"
  proof (intro allI impI)
    fix i assume "i < Suc k"
    then consider "i < k" | "i = k" by linarith
    then show "if ms0 ! i = Correct then ms[k := v] ! i = Correct
            else ms[k := v] ! i = Incorrect \<or> ms[k := v] ! i = Wrong_position"
    proof cases
      case 1
      then show ?thesis using below [of i] by (simp add: nth_new)
    next
      case 2
      then show ?thesis using k0 by (simp add: nth_new v_def)
    qed
  qed
  have c: "\<forall>i<Suc k. ms0 ! i \<noteq> Correct \<longrightarrow>
        (ms[k := v] ! i = Wrong_position \<longleftrightarrow>
           ?gl i \<noteq> [] \<and>
           length (filter (\<lambda>j. ms[k := v] ! j = Wrong_position \<and> ?gl j = ?gl i) [0..<i])
             < counter lc0 (?gl i))"
  proof (intro allI impI)
    fix i assume i: "i < Suc k" and n: "ms0 ! i \<noteq> Correct"
    from i consider "i < k" | "i = k" by linarith
    then show "ms[k := v] ! i = Wrong_position \<longleftrightarrow>
           ?gl i \<noteq> [] \<and>
           length (filter (\<lambda>j. ms[k := v] ! j = Wrong_position \<and> ?gl j = ?gl i) [0..<i])
             < counter lc0 (?gl i)"
    proof cases
      case 1
      then have "i \<le> k" by simp
      from filt [OF this] dec [OF 1 n] 1 show ?thesis by (simp add: nth_new)
    next
      case 2
      have "ms ! k \<noteq> Correct" using n 2 k0 by simp
      then have "v = Wrong_position \<longleftrightarrow> ?gl k \<noteq> [] \<and> 0 < counter m (?gl k)"
        by (simp add: v_def)
      with pos filt [of k] show ?thesis by (simp add: 2 nth_new)
    qed
  qed
  have d: "\<forall>s. length (filter (\<lambda>i. ms[k := v] ! i = Wrong_position \<and> ?gl i = s) [0..<Suc k])
            + counter m' s = counter lc0 s"
  proof
    fix s
    have f: "filter (\<lambda>i. ms[k := v] ! i = Wrong_position \<and> ?gl i = s) [0..<k] =
             filter (\<lambda>i. ms ! i = Wrong_position \<and> ?gl i = s) [0..<k]"
      by (rule filt) simp
    have vk: "ms[k := v] ! k = v" using kms by simp
    have g: "length (filter (\<lambda>i. ms[k := v] ! i = Wrong_position \<and> ?gl i = s) [0..<Suc k]) =
             length (filter (\<lambda>i. ms ! i = Wrong_position \<and> ?gl i = s) [0..<k]) +
             (if v = Wrong_position \<and> ?gl k = s then 1 else 0)"
      by (simp add: f vk)
    show "length (filter (\<lambda>i. ms[k := v] ! i = Wrong_position \<and> ?gl i = s) [0..<Suc k])
            + counter m' s = counter lc0 s"
      unfolding g using cons [of s]
      by (auto simp: v_def m'_def counter_upd)
  qed
  show ?thesis
    unfolding eq pass2_inv_def fst_conv snd_conv
    using len a b c d by simp
qed

lemma pass2_inv_fold:
  "k \<le> length ms0 \<Longrightarrow>
   pass2_inv cv guess ms0 lc0 k (fold (mark_wrong_position cv guess) [0..<k] (ms0, lc0))"
proof (induction k)
  case 0
  show ?case by (simp add: pass2_inv_0)
next
  case (Suc k)
  then have "pass2_inv cv guess ms0 lc0 k (fold (mark_wrong_position cv guess) [0..<k] (ms0, lc0))"
    and "k < length ms0" by simp_all
  then have "pass2_inv cv guess ms0 lc0 (Suc k)
     (mark_wrong_position cv guess k (fold (mark_wrong_position cv guess) [0..<k] (ms0, lc0)))"
    by (rule pass2_inv_step [rotated])
  then show ?case by simp
qed

lemma pass2_inv_length:
  "pass2_inv cv guess ms0 lc0 k st \<Longrightarrow> length (fst st) = length ms0"
  by (simp add: pass2_inv_def)

lemma pass2_inv_below:
  assumes "pass2_inv cv guess ms0 lc0 k st" and "i < k"
  shows "if ms0 ! i = Correct then fst st ! i = Correct
         else fst st ! i = Incorrect \<or> fst st ! i = Wrong_position"
proof -
  from assms(1) have "\<forall>i<k. if ms0 ! i = Correct then fst st ! i = Correct
            else fst st ! i = Incorrect \<or> fst st ! i = Wrong_position"
    unfolding pass2_inv_def by (elim conjE)
  with assms(2) show ?thesis by blast
qed

lemma pass2_inv_decision:
  assumes "pass2_inv cv guess ms0 lc0 k st" and "i < k" and "ms0 ! i \<noteq> Correct"
  shows "fst st ! i = Wrong_position \<longleftrightarrow>
        guessedLetter cv guess i \<noteq> [] \<and>
        length (filter (\<lambda>j. fst st ! j = Wrong_position \<and>
                           guessedLetter cv guess j = guessedLetter cv guess i) [0..<i])
          < counter lc0 (guessedLetter cv guess i)"
proof -
  from assms(1) have "\<forall>i<k. ms0 ! i \<noteq> Correct \<longrightarrow>
        (fst st ! i = Wrong_position \<longleftrightarrow>
           guessedLetter cv guess i \<noteq> [] \<and>
           length (filter (\<lambda>j. fst st ! j = Wrong_position \<and>
                              guessedLetter cv guess j = guessedLetter cv guess i) [0..<i])
             < counter lc0 (guessedLetter cv guess i))"
    unfolding pass2_inv_def by (elim conjE)
  with assms(2,3) show ?thesis by blast
qed

lemma pass2_inv_counter:
  "pass2_inv cv guess ms0 lc0 k st \<Longrightarrow>
     length (filter (\<lambda>i. fst st ! i = Wrong_position \<and> guessedLetter cv guess i = s) [0..<k])
       + counter (snd st) s = counter lc0 s"
  by (simp add: pass2_inv_def)

section \<open>The array after the three loops\<close>

lemma matchStatus_exact_eq:
  "matchStatus_exact cv guess t n =
     map (\<lambda>i. if exact_match cv guess t i then Correct else Unset) [0..<n]"
  by (simp add: matchStatus_exact_def matchStatus_exact_prefix)

lemma counter_letterCounts_init:
  "counter (letterCounts_init cv guess (toLowerCase cv word)) s = available cv word guess s"
  by (simp add: letterCounts_init_def counter_letterCounts_prefix available_def)

lemma matchStatus_inv:
  "pass2_inv cv guess
     (matchStatus_exact cv guess (toLowerCase cv word) (max (length word) (length guess)))
     (letterCounts_init cv guess (toLowerCase cv word))
     (max (length word) (length guess))
     (fold (mark_wrong_position cv guess) [0..<max (length word) (length guess)]
        (matchStatus_exact cv guess (toLowerCase cv word) (max (length word) (length guess)),
         letterCounts_init cv guess (toLowerCase cv word)))"
  by (rule pass2_inv_fold) (simp add: matchStatus_exact_eq)

lemma length_matchStatus [simp]:
  "length (matchStatus cv word guess) = max (length word) (length guess)"
  using pass2_inv_length [OF matchStatus_inv [of cv guess word]]
  by (simp add: matchStatus_def Let_def matchStatus_exact_eq)

lemma matchStatus_nth:
  assumes "i < max (length word) (length guess)"
  shows "if exact_match cv guess (toLowerCase cv word) i
         then matchStatus cv word guess ! i = Correct
         else matchStatus cv word guess ! i = Incorrect \<or>
              matchStatus cv word guess ! i = Wrong_position"
  using pass2_inv_below [OF matchStatus_inv [of cv guess word] assms] assms
  by (simp add: matchStatus_def Let_def matchStatus_exact_eq split: if_splits)

lemma matchStatus_decision:
  assumes i: "i < max (length word) (length guess)"
    and n: "\<not> exact_match cv guess (toLowerCase cv word) i"
  shows "matchStatus cv word guess ! i = Wrong_position \<longleftrightarrow>
           guessedLetter cv guess i \<noteq> [] \<and>
           taken_before cv (matchStatus cv word guess) guess i
             < available cv word guess (guessedLetter cv guess i)"
proof -
  have "matchStatus_exact cv guess (toLowerCase cv word) (max (length word) (length guess)) ! i
          \<noteq> Correct"
    using i n by (simp add: matchStatus_exact_eq)
  from pass2_inv_decision [OF matchStatus_inv [of cv guess word] i this]
  show ?thesis
    by (simp add: matchStatus_def Let_def taken_before_def counter_letterCounts_init)
qed

lemma matchStatus_wrong_count:
  "length (filter (\<lambda>i. matchStatus cv word guess ! i = Wrong_position \<and> guessedLetter cv guess i = s)
            [0..<max (length word) (length guess)])
   \<le> available cv word guess s"
  using pass2_inv_counter [OF matchStatus_inv [of cv guess word], of s]
  by (simp add: matchStatus_def Let_def counter_letterCounts_init)

lemma classify_eq:
  "classify cv target guess = (if target = [] then None else Some (matchStatus cv target guess))"
proof -
  have "map (\<lambda>i. matchStatus cv target guess ! i) [0..<max (length target) (length guess)]
          = matchStatus cv target guess"
    using map_nth [of "matchStatus cv target guess"] by simp
  then show ?thesis
    by (simp add: classify_def renderGuessRow_def Let_def comp_def)
qed

section \<open>The worked examples\<close>

text \<open>
  C4: the guess \<open>PPLEA\<close> against the target \<open>APPLE\<close> is classified
  present-elsewhere, correct, present-elsewhere, present-elsewhere, present-elsewhere.
\<close>

theorem classify_APPLE_PPLEA:
  "classify js_case (units ''APPLE'') (units ''PPLEA'') =
     Some [present_elsewhere, Correct, present_elsewhere, present_elsewhere, present_elsewhere]"
  by code_simp

text \<open>
  C5: the guess \<open>ROAR\<close> against the target \<open>ERROR\<close> gets five entries,
  present-elsewhere, present-elsewhere, absent, present-elsewhere, absent; the last one
  stands for the position the guess does not reach, and its cell is rendered as an
  empty place (no text, the class of empty places).
\<close>

theorem classify_ERROR_ROAR:
  "classify js_case (units ''ERROR'') (units ''ROAR'') =
     Some [present_elsewhere, present_elsewhere, absent, present_elsewhere, absent] \<and>
   map_option (\<lambda>cells. (length cells, cell_class (last cells), cell_text (last cells)))
     (renderGuessRow js_case (Some (units ''ERROR'')) (units ''ROAR''))
     = Some (5, ''bg-red-500 text-white'', [])"
  by code_simp

section \<open>Totality\<close>

text \<open>
  C8 does not hold as it stands: on the empty target the guard of \<open>renderGuessRow\<close>
  returns \<open>null\<close>, so that the guess \<open>abc\<close> gets no classification at all.
\<close>

theorem classify_empty_target:
  "classify js_case [] (units ''abc'') = None \<and>
   renderGuessRow js_case (Some []) (units ''abc'') = None \<and>
   max (length ([] :: js_string)) (length (units ''abc'')) = 3"
  by (simp add: classify_eq renderGuessRow_def units_def)

text \<open>
  C8, as the code has it: for every non-empty target and every guess, empty guesses,
  other lengths and non-letters included, and whatever the case conversions do, the
  scorer yields a classification of length \<open>max(len(target), len(guess))\<close> whose entries
  are \<open>correct\<close>, \<open>present-elsewhere\<close> or \<open>absent\<close>; on the empty target it yields
  \<open>null\<close>.
\<close>

theorem classify_total_nonempty:
  "(target \<noteq> [] \<longrightarrow>
      (\<exists>cs. classify cv target guess = Some cs \<and>
            length cs = max (length target) (length guess) \<and>
            set cs \<subseteq> {Correct, present_elsewhere, absent})) \<and>
   classify cv [] guess = None"
proof -
  have "s \<in> {Correct, present_elsewhere, absent}" if "s \<in> set (matchStatus cv target guess)" for s
  proof -
    from that obtain i where i: "i < length (matchStatus cv target guess)"
      and s: "matchStatus cv target guess ! i = s"
      by (auto simp: in_set_conv_nth)
    from i have "i < max (length target) (length guess)" by simp
    from matchStatus_nth [OF this, of cv] s show ?thesis
      by (auto split: if_splits)
  qed
  then have "set (matchStatus cv target guess) \<subseteq> {Correct, present_elsewhere, absent}"
    by blast
  then show ?thesis by (simp add: classify_eq)
qed

text \<open>The same at the target \<open>ERROR\<close> and the guess \<open>ROAR\<close>.\<close>

theorem classify_total_nonempty_witness:
  "units ''ERROR'' \<noteq> [] \<and>
   classify js_case (units ''ERROR'') (units ''ROAR'') =
     Some [present_elsewhere, present_elsewhere, absent, present_elsewhere, absent] \<and>
   length [present_elsewhere, present_elsewhere, absent, present_elsewhere, absent] =
     max (length (units ''ERROR'')) (length (units ''ROAR'')) \<and>
   classify js_case [] (units ''ROAR'') = None"
proof -
  have h: "classify js_case (units ''ERROR'') (units ''ROAR'') =
     Some [present_elsewhere, present_elsewhere, absent, present_elsewhere, absent]"
    by code_simp
  from classify_total_nonempty [of "units ''ERROR''" js_case "units ''ROAR''"] h
  show ?thesis by (simp add: units_def)
qed

section \<open>ASCII strings under the case rows\<close>

lemma toLowerCase_js_case_ascii:
  "ascii s \<Longrightarrow>
   toLowerCase js_case s = map (\<lambda>u. if 65 \<le> u \<and> u \<le> 90 then u + 32 else u) s"
  by (induction s) (auto simp: js_case_def ascii_def lower_unit_def)

lemma toUpperCase_js_case_ascii:
  "ascii s \<Longrightarrow>
   toUpperCase js_case s = map (\<lambda>u. if 97 \<le> u \<and> u \<le> 122 then u - 32 else u) s"
  by (induction s) (auto simp: js_case_def ascii_def upper_unit_def)

lemma ascii_nth: "ascii s \<Longrightarrow> i < length s \<Longrightarrow> ascii [s ! i]"
  by (simp add: ascii_def list_all_length)

lemma ascii_toLowerCase: "ascii s \<Longrightarrow> ascii (toLowerCase js_case s)"
  by (auto simp: toLowerCase_js_case_ascii ascii_def list_all_iff)

lemma ascii_toUpperCase: "ascii s \<Longrightarrow> ascii (toUpperCase js_case s)"
  by (auto simp: toUpperCase_js_case_ascii ascii_def list_all_iff)

lemma ascii_matches_itself: "ascii s \<Longrightarrow> matches_itself js_case s"
  by (simp add: matches_itself_def list_all_iff js_index_def toLowerCase_js_case_ascii ascii_nth)

lemma ascii_letterwise: "ascii s \<Longrightarrow> letterwise js_case s"
  by (simp add: letterwise_def ascii_matches_itself toLowerCase_js_case_ascii)

lemma ascii_keeps_word:
  assumes "ascii s"
  shows "keeps_word js_case (toLowerCase js_case) s \<and> keeps_word js_case (toUpperCase js_case) s"
proof -
  let ?l = "\<lambda>u::nat. if 65 \<le> u \<and> u \<le> 90 then u + 32 else u"
  let ?u = "\<lambda>u::nat. if 97 \<le> u \<and> u \<le> 122 then u - 32 else u"
  have "toLowerCase js_case (toLowerCase js_case s) = map ?l (map ?l s)"
    using toLowerCase_js_case_ascii [OF ascii_toLowerCase [OF assms]]
    by (simp only: toLowerCase_js_case_ascii [OF assms])
  also have "\<dots> = map ?l s" by simp
  finally have a: "toLowerCase js_case (toLowerCase js_case s) = toLowerCase js_case s"
    by (simp only: toLowerCase_js_case_ascii [OF assms])
  have "toLowerCase js_case (toUpperCase js_case s) = map ?l (map ?u s)"
    using toLowerCase_js_case_ascii [OF ascii_toUpperCase [OF assms]]
    by (simp only: toUpperCase_js_case_ascii [OF assms])
  also have "\<dots> = map ?l s" by (induction s) auto
  finally have b: "toLowerCase js_case (toUpperCase js_case s) = toLowerCase js_case s"
    by (simp only: toLowerCase_js_case_ascii [OF assms])
  have c: "length (toLowerCase js_case s) = length s" "length (toUpperCase js_case s) = length s"
    by (simp_all add: toLowerCase_js_case_ascii [OF assms] toUpperCase_js_case_ascii [OF assms])
  from a b c show ?thesis by (simp add: keeps_word_def)
qed

lemma ascii_keeps_letters:
  "ascii s \<Longrightarrow> keeps_letters js_case (toLowerCase js_case) s \<and>
                 keeps_letters js_case (toUpperCase js_case) s"
  by (auto simp: keeps_letters_def list_all_iff toLowerCase_js_case_ascii
        toUpperCase_js_case_ascii ascii_nth ascii_def list_all_length)

section \<open>A target guessed against itself\<close>

lemma matches_itself_iff:
  "matches_itself cv s \<longleftrightarrow> (\<forall>i<length s. exact_match cv s (toLowerCase cv s) i)"
  by (auto simp: matches_itself_def list_all_iff js_index_def exact_match_def)

lemma matchStatus_self:
  "matchStatus cv target target = replicate (length target) Correct \<longleftrightarrow> matches_itself cv target"
proof
  assume all: "matchStatus cv target target = replicate (length target) Correct"
  have "exact_match cv target (toLowerCase cv target) i" if i: "i < length target" for i
  proof (rule ccontr)
    assume n: "\<not> exact_match cv target (toLowerCase cv target) i"
    from i have "i < max (length target) (length target)" by simp
    from matchStatus_nth [OF this, of cv] n
    have "matchStatus cv target target ! i \<noteq> Correct" by auto
    with all i show False by simp
  qed
  then show "matches_itself cv target" by (simp add: matches_itself_iff)
next
  assume m: "matches_itself cv target"
  show "matchStatus cv target target = replicate (length target) Correct"
  proof (rule nth_equalityI)
    show "length (matchStatus cv target target) = length (replicate (length target) Correct)"
      by simp
  next
    fix i assume "i < length (matchStatus cv target target)"
    then have i: "i < length target" by simp
    then have e: "exact_match cv target (toLowerCase cv target) i"
      using m by (simp add: matches_itself_iff)
    from i have "i < max (length target) (length target)" by simp
    from matchStatus_nth [OF this, of cv] e
    show "matchStatus cv target target ! i = replicate (length target) Correct ! i"
      using i by simp
  qed
qed




section \<open>Positions beyond the target\<close>

text \<open>
  C1 does not hold as it stands: the guess \<open>xxa\<close> is longer than the target \<open>ab\<close>,
  and its third letter, beyond the target, finds the \<open>a\<close> of the target still
  available and is classified \<open>present-elsewhere\<close>.  A position beyond the target can
  even be \<open>correct\<close>, where the lower-cased target is longer than the target: against
  the target U+0130 the second letter of the guess \<open>i\<close>, U+0307 is.
\<close>

theorem trailing_letter_present_elsewhere:
  "classify js_case (units ''ab'') (units ''xxa'') = Some [absent, absent, present_elsewhere] \<and>
   length (units ''ab'') < length (units ''xxa'') \<and> length (units ''ab'') \<le> (2::nat) \<and>
   [absent, absent, present_elsewhere] ! 2 \<noteq> absent \<and>
   classify js_case [304] [105, 775] = Some [Correct, Correct] \<and>
   length [304::nat] < length [105, 775::nat] \<and> length [304::nat] \<le> (1::nat) \<and>
   [Correct, Correct] ! 1 \<noteq> absent"
  by code_simp

text \<open>
  C1, as the code has it: a guess position at or beyond the length of the target and of
  the lower-cased target is never \<open>correct\<close>; it is \<open>present-elsewhere\<close> exactly when
  the lower-cased target has more occurrences of its letter that the guess does not
  match exactly than there are \<open>present-elsewhere\<close> positions with that letter to its
  left, and \<open>absent\<close> otherwise.
\<close>

theorem extra_positions:
  assumes "classify cv target guess = Some cs"
    and "length target \<le> i" and "length (toLowerCase cv target) \<le> i" and "i < length guess"
  shows "cs ! i \<noteq> Correct \<and>
         (cs ! i = present_elsewhere \<longleftrightarrow>
            toLowerCase cv [guess ! i] \<noteq> [] \<and>
            taken_before cv cs guess i < available cv target guess (toLowerCase cv [guess ! i])) \<and>
         (cs ! i = absent \<longleftrightarrow>
            \<not> (toLowerCase cv [guess ! i] \<noteq> [] \<and>
               taken_before cv cs guess i < available cv target guess (toLowerCase cv [guess ! i])))"
proof -
  from assms(1) have cs: "cs = matchStatus cv target guess"
    by (simp add: classify_eq split: if_splits)
  have i: "i < max (length target) (length guess)" using assms(4) by simp
  have n: "\<not> exact_match cv guess (toLowerCase cv target) i"
    using assms(3) by (simp add: exact_match_def)
  have gl: "guessedLetter cv guess i = toLowerCase cv [guess ! i]"
    using assms(4) by (simp add: guessedLetter_def)
  from matchStatus_nth [OF i, of cv] n
  have a: "cs ! i = absent \<or> cs ! i = present_elsewhere" by (simp add: cs)
  from matchStatus_decision [OF i n]
  have d: "cs ! i = present_elsewhere \<longleftrightarrow>
            toLowerCase cv [guess ! i] \<noteq> [] \<and>
            taken_before cv cs guess i < available cv target guess (toLowerCase cv [guess ! i])"
    by (simp add: cs gl)
  from a d show ?thesis by auto
qed

text \<open>
  The same at the target \<open>ab\<close> and the third position of the guesses \<open>xxa\<close>, where one
  \<open>a\<close> is available and none is taken, and \<open>aba\<close>, where no \<open>a\<close> is available.
\<close>

theorem extra_positions_witness:
  "classify js_case (units ''ab'') (units ''xxa'') = Some [absent, absent, present_elsewhere] \<and>
   classify js_case (units ''ab'') (units ''aba'') = Some [Correct, Correct, absent] \<and>
   length (units ''ab'') \<le> (2::nat) \<and> length (toLowerCase js_case (units ''ab'')) \<le> (2::nat) \<and>
   2 < length (units ''xxa'') \<and> 2 < length (units ''aba'') \<and>
   taken_before js_case [absent, absent, present_elsewhere] (units ''xxa'') 2 = 0 \<and>
   available js_case (units ''ab'') (units ''xxa'') (toLowerCase js_case [units ''xxa'' ! 2]) = 1 \<and>
   available js_case (units ''ab'') (units ''aba'') (toLowerCase js_case [units ''aba'' ! 2]) = 0 \<and>
   [absent, absent, present_elsewhere] ! 2 = present_elsewhere \<and>
   [Correct, Correct, absent] ! 2 = absent"
proof -
  have h1: "classify js_case (units ''ab'') (units ''xxa'') = Some [absent, absent, present_elsewhere]"
    by code_simp
  have h2: "classify js_case (units ''ab'') (units ''aba'') = Some [Correct, Correct, absent]"
    by code_simp
  have l: "length (units ''ab'') \<le> (2::nat)" "length (toLowerCase js_case (units ''ab'')) \<le> (2::nat)"
    by code_simp+
  have g: "2 < length (units ''xxa'')" "2 < length (units ''aba'')" by code_simp+
  have t: "taken_before js_case [absent, absent, present_elsewhere] (units ''xxa'') 2 = 0"
    by code_simp
  have a1: "available js_case (units ''ab'') (units ''xxa'') (toLowerCase js_case [units ''xxa'' ! 2]) = 1"
    by code_simp
  have a2: "available js_case (units ''ab'') (units ''aba'') (toLowerCase js_case [units ''aba'' ! 2]) = 0"
    by code_simp
  from extra_positions [OF h1 l g(1)] extra_positions [OF h2 l g(2)] h1 h2 l g t a1 a2
  show ?thesis by simp
qed

section \<open>No letter is credited more often than the target has it\<close>

lemma length_filter_disj_le:
  "length (filter (\<lambda>x. P x \<or> Q x) xs) \<le> length (filter P xs) + length (filter Q xs)"
  by (induction xs) auto

lemma length_filter_mono:
  "(\<And>x. x \<in> set xs \<Longrightarrow> P x \<Longrightarrow> Q x) \<Longrightarrow> length (filter P xs) \<le> length (filter Q xs)"
  by (induction xs) auto

lemma length_filter_split:
  "length (filter (\<lambda>x. E x \<and> T x) xs) + length (filter (\<lambda>x. \<not> E x \<and> T x) xs) = length (filter T xs)"
  by (induction xs) auto

lemma length_filter_upt_le:
  assumes "\<And>i. i < n \<Longrightarrow> P i \<Longrightarrow> i < m \<and> Q i"
  shows "length (filter P [0..<n]) \<le> length (filter Q [0..<m])"
proof -
  have p: "card (set (filter P [0..<n])) = length (filter P [0..<n])"
    by (rule distinct_card) simp
  have q: "card (set (filter Q [0..<m])) = length (filter Q [0..<m])"
    by (rule distinct_card) simp
  have "card (set (filter P [0..<n])) \<le> card (set (filter Q [0..<m]))"
    by (rule card_mono) (use assms in auto)
  with p q show ?thesis by simp
qed

lemma count_list_map_nth:
  "count_list (map f xs) s = length (filter (\<lambda>i. f (xs ! i) = s) [0..<length xs])"
proof (induction xs rule: rev_induct)
  case Nil
  show ?case by simp
next
  case (snoc x xs)
  have "filter (\<lambda>i. f ((xs @ [x]) ! i) = s) [0..<length xs] =
        filter (\<lambda>i. f (xs ! i) = s) [0..<length xs]"
    by (rule filter_cong) (auto simp: nth_append)
  then show ?case using snoc by (simp add: nth_append)
qed

lemma correct_count:
  "length (filter (\<lambda>i. matchStatus cv word guess ! i = Correct \<and> guessedLetter cv guess i = s)
            [0..<max (length word) (length guess)])
   \<le> length (filter (\<lambda>j. exact_match cv guess (toLowerCase cv word) j \<and>
                           [toLowerCase cv word ! j] = s)
            [0..<length (toLowerCase cv word)])"
proof (rule length_filter_upt_le)
  fix i
  assume i: "i < max (length word) (length guess)"
    and p: "matchStatus cv word guess ! i = Correct \<and> guessedLetter cv guess i = s"
  from matchStatus_nth [OF i, of cv] p
  have e: "exact_match cv guess (toLowerCase cv word) i" by (auto split: if_splits)
  then show "i < length (toLowerCase cv word) \<and>
        (exact_match cv guess (toLowerCase cv word) i \<and> [toLowerCase cv word ! i] = s)"
    using p by (auto simp: exact_match_def guessedLetter_def)
qed

lemma credited_matchStatus:
  "credited cv (matchStatus cv word guess) guess c
     \<le> count_list (map (\<lambda>u. [u]) (toLowerCase cv word)) (toLowerCase cv [c])"
proof -
  let ?N = "max (length word) (length guess)"
  let ?ms = "matchStatus cv word guess" and ?t = "toLowerCase cv word" and ?s = "toLowerCase cv [c]"
  let ?gl = "guessedLetter cv guess"
  have "credited cv ?ms guess c \<le>
      length (filter (\<lambda>i. (?ms ! i = Correct \<and> ?gl i = ?s) \<or>
                          (?ms ! i = Wrong_position \<and> ?gl i = ?s)) [0..<?N])"
    unfolding credited_def length_matchStatus
    by (rule length_filter_mono) (auto simp: guessedLetter_def)
  also have "\<dots> \<le> length (filter (\<lambda>i. ?ms ! i = Correct \<and> ?gl i = ?s) [0..<?N])
                 + length (filter (\<lambda>i. ?ms ! i = Wrong_position \<and> ?gl i = ?s) [0..<?N])"
    by (rule length_filter_disj_le)
  also have "\<dots> \<le> length (filter (\<lambda>j. exact_match cv guess ?t j \<and> [?t ! j] = ?s) [0..<length ?t])
                 + length (filter (\<lambda>j. \<not> exact_match cv guess ?t j \<and> [?t ! j] = ?s) [0..<length ?t])"
    using correct_count [of cv word guess ?s] matchStatus_wrong_count [of cv word guess ?s]
    by (simp add: available_def)
  also have "\<dots> = length (filter (\<lambda>j. [?t ! j] = ?s) [0..<length ?t])"
    by (rule length_filter_split)
  also have "\<dots> = count_list (map (\<lambda>u. [u]) ?t) ?s"
    by (simp add: count_list_map_nth)
  finally show ?thesis .
qed



section \<open>Replacing the target and the guess\<close>

lemma guess_lower_index_cong:
  assumes "length guess' = length guess"
    and "\<forall>i<length guess. toLowerCase cv [guess' ! i] = toLowerCase cv [guess ! i]"
  shows "map_option (toLowerCase cv) (js_index guess' i) = map_option (toLowerCase cv) (js_index guess i)"
  using assms by (simp add: guess_lower_index)

lemma matchStatus_cong:
  assumes lg: "length guess' = length guess"
    and g: "\<forall>i<length guess. toLowerCase cv [guess' ! i] = toLowerCase cv [guess ! i]"
    and lw: "length word' = length word"
    and w: "toLowerCase cv word' = toLowerCase cv word"
  shows "matchStatus cv word' guess' = matchStatus cv word guess"
proof -
  have a: "count_available cv guess' t = count_available cv guess t" for t
    by (intro ext) (simp add: count_available_def guess_lower_index_cong [OF lg g])
  have b: "mark_exact cv guess' t = mark_exact cv guess t" for t
    by (intro ext) (simp add: mark_exact_def guess_lower_index_cong [OF lg g])
  have c: "mark_wrong_position cv guess' = mark_wrong_position cv guess"
    by (intro ext) (simp add: mark_wrong_position_def guess_lower_index_cong [OF lg g] cong: if_cong)
  show ?thesis
    by (simp add: matchStatus_def matchStatus_exact_def letterCounts_init_def a b c lg lw w)
qed

text \<open>
  C7 does not hold as it stands: the upper-case form of U+00DF is \<open>SS\<close>, so that the
  guess U+00DF is \<open>correct\<close> against the target U+00DF and \<open>absent\<close> twice against
  the upper-cased target; and U+0130 against itself is \<open>absent\<close>, while lower-casing
  both gives two \<open>correct\<close> positions.
\<close>

theorem classify_case_changes_result:
  "classify js_case [223] [223] = Some [Correct] \<and>
   classify js_case (toUpperCase js_case [223]) [223] = Some [absent, absent] \<and>
   classify js_case [304] [304] = Some [absent] \<and>
   classify js_case (toLowerCase js_case [304]) (toLowerCase js_case [304]) = Some [Correct, Correct]"
  by code_simp

text \<open>
  C7, as the code has it: the classification is the same when the target is replaced by
  a form of the same length with the same lower-cased form, and the guess by a form of
  the same length whose letters have the same lower-case forms; the lower-cased and the
  upper-cased form of a string of ASCII characters are such forms.
\<close>

theorem classify_case_insensitive:
  "keeps_word cv f target \<Longrightarrow> keeps_letters cv h guess \<Longrightarrow>
     classify cv (f target) (h guess) = classify cv target guess"
proof -
  assume t: "keeps_word cv f target" and g: "keeps_letters cv h guess"
  from t have lw: "length (f target) = length target"
    and w: "toLowerCase cv (f target) = toLowerCase cv target"
    by (simp_all add: keeps_word_def)
  from g have lg: "length (h guess) = length guess"
    and gg: "\<forall>i<length guess. toLowerCase cv [h guess ! i] = toLowerCase cv [guess ! i]"
    by (simp_all add: keeps_letters_def list_all_iff)
  from lw have "f target = [] \<longleftrightarrow> target = []" by (metis length_0_conv)
  then show ?thesis
    by (simp add: classify_eq matchStatus_cong [OF lg gg lw w])
qed

text \<open>
  The same at the target \<open>APPLE\<close>, lower-cased, and the guess \<open>pplea\<close>, upper-cased.
\<close>

theorem classify_case_insensitive_witness:
  "keeps_word js_case (toLowerCase js_case) (units ''APPLE'') \<and>
   keeps_letters js_case (toUpperCase js_case) (units ''pplea'') \<and>
   classify js_case (toLowerCase js_case (units ''APPLE'')) (toUpperCase js_case (units ''pplea''))
     = classify js_case (units ''APPLE'') (units ''pplea'') \<and>
   classify js_case (units ''APPLE'') (units ''pplea'') =
     Some [present_elsewhere, Correct, present_elsewhere, present_elsewhere, present_elsewhere]"
proof -
  have "ascii (units ''APPLE'')" "ascii (units ''pplea'')" by (simp_all add: units_def ascii_def)
  then have k: "keeps_word js_case (toLowerCase js_case) (units ''APPLE'')"
    "keeps_letters js_case (toUpperCase js_case) (units ''pplea'')"
    using ascii_keeps_word ascii_keeps_letters by blast+
  have e: "classify js_case (units ''APPLE'') (units ''pplea'') =
     Some [present_elsewhere, Correct, present_elsewhere, present_elsewhere, present_elsewhere]"
    by code_simp
  from classify_case_insensitive [OF k] k e show ?thesis by simp
qed

section \<open>The three loops and the reference algorithm\<close>

lemma letterwise_length: "letterwise cv s \<Longrightarrow> length (toLowerCase cv s) = length s"
  by (simp add: letterwise_def)

lemma letterwise_nth:
  "letterwise cv s \<Longrightarrow> i < length s \<Longrightarrow> toLowerCase cv [s ! i] = [toLowerCase cv s ! i]"
  by (auto simp: letterwise_def matches_itself_def list_all_iff js_index_def split: if_splits)

lemma spec_pass1_eq:
  assumes "letterwise cv target"
  shows "spec_pass1 cv target guess i st =
     (if exact_match cv guess (toLowerCase cv target) i
      then ((fst st)[i := Correct],
            (snd st)([toLowerCase cv target ! i] := snd st [toLowerCase cv target ! i] - 1))
      else st)"
  using letterwise_length [OF assms] letterwise_nth [OF assms, of i]
  by (auto simp: spec_pass1_def exact_match_def)

lemma fst_spec_pass1:
  "letterwise cv target \<Longrightarrow>
   fst (fold (spec_pass1 cv target guess) js st) =
     fold (mark_exact cv guess (toLowerCase cv target)) js (fst st)"
  by (induction js arbitrary: st) (simp_all add: spec_pass1_eq mark_exact_eq)

lemma snd_spec_pass1:
  "letterwise cv target \<Longrightarrow>
   snd (fold (spec_pass1 cv target guess) js st) s =
     snd st s - int (length (filter (\<lambda>i. exact_match cv guess (toLowerCase cv target) i \<and>
                                          [toLowerCase cv target ! i] = s) js))"
  by (induction js arbitrary: st) (auto simp: spec_pass1_eq)

lemma exact_count_upto:
  "length (filter (\<lambda>i. exact_match cv guess t i \<and> [t ! i] = s) [0..<max n (length guess)]) =
   length (filter (\<lambda>i. exact_match cv guess t i \<and> [t ! i] = s) [0..<length t])"
proof (rule antisym)
  show "length (filter (\<lambda>i. exact_match cv guess t i \<and> [t ! i] = s) [0..<max n (length guess)])
      \<le> length (filter (\<lambda>i. exact_match cv guess t i \<and> [t ! i] = s) [0..<length t])"
    by (rule length_filter_upt_le) (simp add: exact_match_def)
  show "length (filter (\<lambda>i. exact_match cv guess t i \<and> [t ! i] = s) [0..<length t])
      \<le> length (filter (\<lambda>i. exact_match cv guess t i \<and> [t ! i] = s) [0..<max n (length guess)])"
    by (rule length_filter_upt_le) (auto simp: exact_match_def)
qed

lemma spec_histogram_letterwise:
  assumes "letterwise cv target"
  shows "spec_histogram cv target s =
     int (length (filter (\<lambda>i. [toLowerCase cv target ! i] = s) [0..<length (toLowerCase cv target)]))"
proof -
  have "filter (\<lambda>i. toLowerCase cv [target ! i] = s) [0..<length target] =
        filter (\<lambda>i. [toLowerCase cv target ! i] = s) [0..<length target]"
    by (rule filter_cong) (simp_all add: letterwise_nth [OF assms])
  then show ?thesis
    by (simp add: spec_histogram_def count_list_map_nth letterwise_length [OF assms])
qed

lemma spec_counters_after_pass1:
  assumes "letterwise cv target"
  shows "snd (fold (spec_pass1 cv target guess) [0..<max (length target) (length guess)]
          (ms, spec_histogram cv target)) s =
   int (counter (letterCounts_init cv guess (toLowerCase cv target)) s)"
proof -
  let ?t = "toLowerCase cv target"
  have "length (filter (\<lambda>i. exact_match cv guess ?t i \<and> [?t ! i] = s) [0..<length ?t])
      + length (filter (\<lambda>i. \<not> exact_match cv guess ?t i \<and> [?t ! i] = s) [0..<length ?t])
      = length (filter (\<lambda>i. [?t ! i] = s) [0..<length ?t])"
    by (rule length_filter_split)
  then show ?thesis
    by (simp add: snd_spec_pass1 [OF assms] spec_histogram_letterwise [OF assms]
          exact_count_upto counter_letterCounts_init available_def)
qed

lemma spec_pass2_step:
  assumes "fst st' = fst st" and "\<And>s. snd st' s = int (counter (snd st) s)"
    and "counter (snd st) [] = 0"
  shows "fst (spec_pass2 cv guess i st') = fst (mark_wrong_position cv guess i st) \<and>
         (\<forall>s. snd (spec_pass2 cv guess i st') s =
                int (counter (snd (mark_wrong_position cv guess i st)) s)) \<and>
         counter (snd (mark_wrong_position cv guess i st)) [] = 0"
proof -
  obtain ms m where st: "st = (ms, m)" by (cases st)
  obtain ms' cnt where st': "st' = (ms', cnt)" by (cases st')
  from assms st st' have ms: "ms' = ms" and cnt: "\<And>s. cnt s = int (counter m s)"
    and e: "counter m [] = 0" by simp_all
  show ?thesis
    unfolding st st' mark_wrong_position_eq ms
    using e by (auto simp: spec_pass2_def guessedLetter_def cnt counter_upd)
qed

lemma spec_pass2_fold:
  assumes "fst st' = fst st" and "\<And>s. snd st' s = int (counter (snd st) s)"
    and "counter (snd st) [] = 0"
  shows "fst (fold (spec_pass2 cv guess) js st') = fst (fold (mark_wrong_position cv guess) js st)"
  using assms
proof (induction js arbitrary: st st')
  case Nil
  then show ?case by simp
next
  case (Cons j js)
  from spec_pass2_step [of st' st cv guess j] Cons.prems
  have a: "fst (spec_pass2 cv guess j st') = fst (mark_wrong_position cv guess j st)"
    and b: "\<And>s. snd (spec_pass2 cv guess j st') s =
                 int (counter (snd (mark_wrong_position cv guess j st)) s)"
    and c: "counter (snd (mark_wrong_position cv guess j st)) [] = 0"
    by blast+
  from Cons.IH [OF a b c] show ?case by simp
qed

lemma matchStatus_spec_classify:
  assumes "letterwise cv target"
  shows "matchStatus cv target guess = spec_classify cv target guess"
proof -
  let ?n = "max (length target) (length guess)"
  let ?st' = "fold (spec_pass1 cv target guess) [0..<?n] (replicate ?n Unset, spec_histogram cv target)"
  let ?st = "(matchStatus_exact cv guess (toLowerCase cv target) ?n,
              letterCounts_init cv guess (toLowerCase cv target))"
  have a: "fst ?st' = fst ?st"
    by (simp add: fst_spec_pass1 [OF assms] matchStatus_exact_def)
  have b: "snd ?st' s = int (counter (snd ?st) s)" for s
    by (simp add: spec_counters_after_pass1 [OF assms])
  have c: "counter (snd ?st) [] = 0"
    by (simp add: counter_letterCounts_init available_def)
  from spec_pass2_fold [of ?st' ?st, OF a b c]
  show ?thesis
    by (simp add: matchStatus_def spec_classify_def Let_def)
qed




section \<open>The variants that look at one position at a time\<close>

lemma plain_cell_class:
  "(case (if i < length word then js_index word i else None) of
      Some e \<Rightarrow>
        if or_empty (js_index guess i) = [] then ''bg-red-500 text-white''
        else if toLowerCase cv (or_empty (js_index guess i)) = toLowerCase cv e
             then ''bg-green-500 text-white''
        else ''bg-gray-300 text-black''
    | None \<Rightarrow> ''bg-gray-300 text-black'') = position_class cv (char_at word i) (char_at guess i)"
  by (simp add: js_index_def or_empty_def position_class_def char_at_def)

lemma renderGuessRow_default_nth:
  "i < max (length word) (length guess) \<Longrightarrow>
   plain_class (renderGuessRow_default cv word guess ! i) =
     position_class cv (char_at word i) (char_at guess i)"
  by (simp add: renderGuessRow_default_def Let_def plain_cell_class del: upt_Suc)

lemma renderGuessRow_currentWord_nth:
  "i < max (length word) (length guess) \<Longrightarrow>
   plain_class (renderGuessRow_currentWord cv word guess ! i) =
     position_class cv (char_at word i) (char_at guess i)"
  by (simp add: renderGuessRow_currentWord_def Let_def plain_cell_class del: upt_Suc)

lemma renderGuessRow_currentPair_nth:
  "i < max (length word) (length guess) \<Longrightarrow>
   plain_class (renderGuessRow_currentPair cv (Some word) guess ! i) =
     position_class cv (char_at word i) (char_at guess i)"
  by (auto simp add: renderGuessRow_currentPair_def Let_def js_index_def or_empty_def
        position_class_def char_at_def simp del: upt_Suc)

lemma renderGuessRow_currentPair_None:
  "renderGuessRow_currentPair cv None guess = renderGuessRow_currentPair cv (Some []) guess"
  by (simp add: renderGuessRow_currentPair_def Let_def)

lemma position_class_green:
  "position_class cv (char_at word i) (char_at guess i) = ''bg-green-500 text-white'' \<longleftrightarrow>
     i < length word \<and> i < length guess \<and> toLowerCase cv [guess ! i] = toLowerCase cv [word ! i]"
  by (simp add: position_class_def char_at_def)

lemma position_class_not_yellow:
  "position_class cv e g \<noteq> ''bg-yellow-500 text-white''"
  by (simp add: position_class_def split: option.splits)

text \<open>
  C9: the three variants without a table of letters give each cell a class that depends
  on the letters of that position alone: green exactly when the guess and the word have
  the same letter there, whatever its case, red where the guess has no letter, gray
  otherwise, and never the yellow of a letter in the wrong position.
\<close>

theorem position_by_position:
  assumes "i < max (length word) (length guess)"
  shows "length (renderGuessRow_default cv word guess) = max (length word) (length guess) \<and>
         length (renderGuessRow_currentWord cv word guess) = max (length word) (length guess) \<and>
         length (renderGuessRow_currentPair cv (Some word) guess) = max (length word) (length guess) \<and>
         renderGuessRow_currentPair cv None guess = renderGuessRow_currentPair cv (Some []) guess \<and>
         plain_class (renderGuessRow_default cv word guess ! i) =
           position_class cv (char_at word i) (char_at guess i) \<and>
         plain_class (renderGuessRow_currentWord cv word guess ! i) =
           position_class cv (char_at word i) (char_at guess i) \<and>
         plain_class (renderGuessRow_currentPair cv (Some word) guess ! i) =
           position_class cv (char_at word i) (char_at guess i) \<and>
         (position_class cv (char_at word i) (char_at guess i) = ''bg-green-500 text-white'' \<longleftrightarrow>
            i < length word \<and> i < length guess \<and>
            toLowerCase cv [guess ! i] = toLowerCase cv [word ! i]) \<and>
         position_class cv (char_at word i) (char_at guess i) \<noteq> ''bg-yellow-500 text-white''"
proof -
  have "length (renderGuessRow_default cv word guess) = max (length word) (length guess)"
    by (simp add: renderGuessRow_default_def Let_def)
  moreover have "length (renderGuessRow_currentWord cv word guess) = max (length word) (length guess)"
    by (simp add: renderGuessRow_currentWord_def Let_def)
  moreover have "length (renderGuessRow_currentPair cv (Some word) guess) = max (length word) (length guess)"
    by (simp add: renderGuessRow_currentPair_def Let_def)
  ultimately show ?thesis
    using renderGuessRow_default_nth [OF assms, of cv] renderGuessRow_currentWord_nth [OF assms, of cv]
      renderGuessRow_currentPair_nth [OF assms, of cv] renderGuessRow_currentPair_None [of cv guess]
      position_class_green [of cv word i guess]
      position_class_not_yellow [of cv "char_at word i" "char_at guess i"]
    by blast
qed

text \<open>
  The same at the word \<open>APPLE\<close>, the guess \<open>PPLEA\<close> and the first position: the three
  variants show gray where the scorer with the table shows yellow.
\<close>

theorem position_by_position_witness:
  "(0::nat) < max (length (units ''APPLE'')) (length (units ''PPLEA'')) \<and>
   plain_class (renderGuessRow_default js_case (units ''APPLE'') (units ''PPLEA'') ! 0)
     = ''bg-gray-300 text-black'' \<and>
   plain_class (renderGuessRow_currentWord js_case (units ''APPLE'') (units ''PPLEA'') ! 0)
     = ''bg-gray-300 text-black'' \<and>
   plain_class (renderGuessRow_currentPair js_case (Some (units ''APPLE'')) (units ''PPLEA'') ! 0)
     = ''bg-gray-300 text-black'' \<and>
   map_option (\<lambda>cells. cell_class (cells ! 0))
     (renderGuessRow js_case (Some (units ''APPLE'')) (units ''PPLEA''))
     = Some ''bg-yellow-500 text-white''"
proof -
  have h: "(0::nat) < max (length (units ''APPLE'')) (length (units ''PPLEA''))"
    by (simp add: units_def)
  have p: "position_class js_case (char_at (units ''APPLE'') 0) (char_at (units ''PPLEA'') 0)
             = ''bg-gray-300 text-black''"
    by code_simp
  have y: "map_option (\<lambda>cells. cell_class (cells ! 0))
     (renderGuessRow js_case (Some (units ''APPLE'')) (units ''PPLEA''))
     = Some ''bg-yellow-500 text-white''"
    by code_simp
  from position_by_position [OF h, of js_case] p y h show ?thesis by simp
qed

section \<open>The day of the challenge\<close>

lemma nearest_double_small: "\<bar>x\<bar> < 2 ^ 53 \<Longrightarrow> nearest_double x = x"
  by (simp add: nearest_double_def Let_def)

lemma js_add_one:
  "- (2 ^ 53) \<le> d \<Longrightarrow> d < 28 \<Longrightarrow> js_add d 1 = d + 1"
  unfolding js_add_def by (rule nearest_double_small) simp

lemma tracker_step_day:
  assumes "progress = Some r" and "1 \<le> current_day r" and "current_day r \<le> 28"
  shows "\<exists>r'. tracker_step c progress = Some r' \<and> 1 \<le> current_day r' \<and> current_day r' \<le> 28"
proof (cases c)
  case AdvanceDay
  show ?thesis
  proof (cases "28 \<le> current_day r")
    case True
    then show ?thesis using assms AdvanceDay by (simp add: advanceDay_def)
  next
    case False
    then have "js_add (current_day r) 1 = current_day r + 1"
      using assms(2) by (intro js_add_one) simp_all
    then show ?thesis using assms AdvanceDay False by (simp add: advanceDay_def)
  qed
qed (use assms in \<open>auto simp: completeTask_def uncompleteTask_def Let_def\<close>)

lemma tracker_fold_day:
  assumes "progress = Some r" and "1 \<le> current_day r" and "current_day r \<le> 28"
  shows "\<exists>r'. fold tracker_step calls progress = Some r' \<and> 1 \<le> current_day r' \<and> current_day r' \<le> 28"
  using assms
proof (induction calls arbitrary: progress r)
  case Nil
  then show ?case by simp
next
  case (Cons c calls)
  from tracker_step_day [OF Cons.prems, of c]
  obtain r' where "tracker_step c progress = Some r'" "1 \<le> current_day r'" "current_day r' \<le> 28"
    by blast
  from Cons.IH [OF this] show ?case by simp
qed

text \<open>
  C10 does not hold as it stands: a day is a double, and on day \<open>-10^17\<close>, which is
  below 28, \<open>current_day + 1\<close> is the same double again, so that \<open>advanceDay\<close> returns
  the day it was given.
\<close>

theorem advanceDay_far_below:
  "(- 100000000000000000 :: int) < 28 \<and>
   map_option current_day
     (advanceDay (Some ((startChallenge ''id'' 0 ''u'' ''c'' ''l'')\<lparr>current_day := - 100000000000000000\<rparr>)))
     = Some (- 100000000000000000)"
  by code_simp

text \<open>
  C10, as the code has it: \<open>advanceDay\<close> returns its argument when \<open>current_day\<close> is 28
  or more; when \<open>current_day\<close> is a whole number from \<open>-2^53\<close> to 27 it adds exactly one
  to \<open>current_day\<close>, every other field kept; so after any sequence of \<open>completeTask\<close>,
  \<open>uncompleteTask\<close> and \<open>advanceDay\<close> calls on the progress \<open>startChallenge\<close> returns,
  \<open>current_day\<close> is between 1 and 28.
\<close>

theorem advanceDay_keeps_day_in_range:
  "(28 \<le> current_day p \<longrightarrow> advanceDay (Some p) = Some p) \<and>
   (- (2 ^ 53) \<le> current_day q \<and> current_day q < 28 \<longrightarrow>
      advanceDay (Some q) = Some (q\<lparr>current_day := current_day q + 1\<rparr>)) \<and>
   (\<exists>r. tracker_run calls (Some (startChallenge fresh_id now userId challengeId levelId)) = Some r \<and>
        1 \<le> current_day r \<and> current_day r \<le> 28)"
proof -
  have "\<exists>r. fold tracker_step calls (Some (startChallenge fresh_id now userId challengeId levelId)) = Some r \<and>
        1 \<le> current_day r \<and> current_day r \<le> 28"
    by (rule tracker_fold_day [OF refl]) (simp_all add: startChallenge_def)
  then show ?thesis
    by (auto simp: advanceDay_def tracker_run_def js_add_one)
qed

text \<open>
  The same on day 28, on day 1, and after thirty calls of \<open>advanceDay\<close> followed by a
  completion, one more \<open>advanceDay\<close> and an uncompletion.
\<close>

theorem advanceDay_keeps_day_in_range_witness:
  "28 \<le> current_day ((startChallenge ''id'' 0 ''u'' ''c'' ''l'')\<lparr>current_day := 28\<rparr>) \<and>
   advanceDay (Some ((startChallenge ''id'' 0 ''u'' ''c'' ''l'')\<lparr>current_day := 28\<rparr>))
     = Some ((startChallenge ''id'' 0 ''u'' ''c'' ''l'')\<lparr>current_day := 28\<rparr>) \<and>
   - (2 ^ 53) \<le> current_day (startChallenge ''id'' 0 ''u'' ''c'' ''l'') \<and>
   current_day (startChallenge ''id'' 0 ''u'' ''c'' ''l'') < 28 \<and>
   advanceDay (Some (startChallenge ''id'' 0 ''u'' ''c'' ''l''))
     = Some ((startChallenge ''id'' 0 ''u'' ''c'' ''l'')\<lparr>current_day := 2\<rparr>) \<and>
   map_option current_day
     (tracker_run (replicate 30 AdvanceDay @ [CompleteTask ''x'' 7 ''t1'' None, AdvanceDay,
                     UncompleteTask ''y'' 8 ''t1''])
        (Some (startChallenge ''id'' 0 ''u'' ''c'' ''l''))) = Some 28"
proof -
  have d: "map_option current_day
     (tracker_run (replicate 30 AdvanceDay @ [CompleteTask ''x'' 7 ''t1'' None, AdvanceDay,
                     UncompleteTask ''y'' 8 ''t1''])
        (Some (startChallenge ''id'' 0 ''u'' ''c'' ''l''))) = Some 28"
    by code_simp
  from advanceDay_keeps_day_in_range
    [of "(startChallenge ''id'' 0 ''u'' ''c'' ''l'')\<lparr>current_day := 28\<rparr>"
        "startChallenge ''id'' 0 ''u'' ''c'' ''l''"
        "replicate 30 AdvanceDay @ [CompleteTask ''x'' 7 ''t1'' None, AdvanceDay, UncompleteTask ''y'' 8 ''t1'']"
        "''id''" 0 "''u''" "''c''" "''l''"] d
  show ?thesis by (simp add: startChallenge_def)
qed

end
